theory Spec2Isabelle
  imports Complex_Main "HOL-Library.Word" "HOL-Library.AList" "HOL-Library.Multiset"
begin

section \<open>The in-memory store of internal/store/store.go\<close>

text \<open>
  Conventions of the embedding.
  \<^item> Go's \<open>int\<close> is the 64-bit two's complement integer of the usual targets: a \<open>64 word\<close>,
    read as a signed number by \<open>sint\<close>; \<open>+=\<close> wraps.
  \<^item> Go's \<open>float64\<close> is modelled by \<open>real\<close>: the amounts are computed in exact
    arithmetic. The rounding of \<open>float64\<close>, the dependence of a \<open>float64\<close> sum on the order
    of its terms, infinities and NaN are not modelled, so a statement below about the
    numeric value of an amount holds of the exact arithmetic only; which fields are written,
    when, and from which operands does not depend on it.
  \<^item> \<open>time.Time\<close> is an abstract clock reading; the zero value is \<open>0\<close>. Every call of
    \<open>time.Now()\<close> is an input of the operation that makes it.
  \<^item> A Go \<open>map[string]V\<close> that is only indexed is a HOL map; one that is also measured
    and ranged over (\<open>Cart.Items\<close>) is an association list, updated by key. The order in
    which \<open>range\<close> visits a map is not specified by Go: it is an input of the operation.
  \<^item> The mutex only serialises the operations: every operation is a function from the store
    to the new store and the returned value.
\<close>

type_synonym time = int

subsection \<open>Data\<close>

record CartItem =
  SKU :: string
  Name :: string
  Price :: real
  Quantity :: "64 word"

record Cart =
  Items :: "(string \<times> CartItem) list"

record Order =
  ID :: string
  UserID :: string
  Items :: "CartItem list"
  TotalAmount :: real
  DiscountCode :: string
  DiscountValue :: real
  CreatedAt :: time

record DiscountCode =
  Code :: string
  Percentage :: real
  GeneratedAt :: time
  RedeemedAt :: time
  IsRedeemed :: bool
  EligibleOrderNum :: "64 word"

record Stats =
  TotalOrders :: "64 word"
  TotalItemsSold :: "64 word"
  GrossRevenue :: real
  TotalDiscountGiven :: real
  DiscountCodes :: "DiscountCode list"
  ActiveDiscount :: "DiscountCode option"

record MemoryStore =
  carts :: "string \<rightharpoonup> Cart"
  orders :: "Order list"
  discountHistory :: "DiscountCode list"
  activeDiscount :: "DiscountCode option"
  nthOrderThreshold :: "64 word"
  nextEligibleOrder :: "64 word"
  totalItemsSold :: "64 word"
  grossRevenue :: real
  totalDiscount :: real

datatype Error =
    ErrCartEmpty
  | ErrDiscountNotActive
  | ErrDiscountAlreadyUsed
  | ErrDiscountMismatch
  | ErrDiscountNotEligible

subsection \<open>Construction and the cart registry\<close>

definition NewMemoryStore :: "64 word \<Rightarrow> MemoryStore" where
  "NewMemoryStore nthOrder =
     (let nthOrder = (if sint nthOrder \<le> 0 then 5 else nthOrder)
      in \<lparr>carts = Map.empty, orders = [], discountHistory = [], activeDiscount = None,
          nthOrderThreshold = nthOrder, nextEligibleOrder = nthOrder,
          totalItemsSold = 0, grossRevenue = 0, totalDiscount = 0\<rparr>)"

text \<open>\<open>getOrCreateCart\<close> returns the user's cart, after storing an empty one when the user
  has none. The pointer it returns in Go is the registry entry: the callers below write the
  cart they changed back under the same key.\<close>

definition getOrCreateCart :: "MemoryStore \<Rightarrow> string \<Rightarrow> MemoryStore \<times> Cart" where
  "getOrCreateCart s userID =
     (case carts s userID of
        Some cart \<Rightarrow> (s, cart)
      | None \<Rightarrow> (s\<lparr>carts := (carts s)(userID \<mapsto> \<lparr>Cart.Items = []\<rparr>)\<rparr>, \<lparr>Cart.Items = []\<rparr>))"

definition AddItem :: "MemoryStore \<Rightarrow> string \<Rightarrow> CartItem \<Rightarrow> MemoryStore \<times> Cart" where
  "AddItem s userID item =
     (let (s1, cart) = getOrCreateCart s userID;
          cart' =
            (case map_of (Cart.Items cart) (SKU item) of
               Some existing \<Rightarrow>
                 cart\<lparr>Cart.Items :=
                   AList.update (SKU item)
                     (existing\<lparr>Quantity := Quantity existing + Quantity item,
                               Price := Price item, Name := Name item\<rparr>)
                     (Cart.Items cart)\<rparr>
             | None \<Rightarrow>
                 cart\<lparr>Cart.Items := AList.update (SKU item) item (Cart.Items cart)\<rparr>)
      in (s1\<lparr>carts := (carts s1)(userID \<mapsto> cart')\<rparr>, cart'))"

definition ViewCart :: "MemoryStore \<Rightarrow> string \<Rightarrow> MemoryStore \<times> Cart" where
  "ViewCart s userID = getOrCreateCart s userID"

subsection \<open>Inputs that the operations read from their environment\<close>

text \<open>\<open>rangeOrder\<close> is the order in which a \<open>range\<close> loop visits the entries of a map: Go leaves
  it unspecified, so each choice picks which of the entries not yet visited comes next. When
  the choices run out the rest is visited as stored. Every order can be chosen.\<close>

fun rangeOrder :: "nat list \<Rightarrow> 'a list \<Rightarrow> 'a list" where
  "rangeOrder cs [] = []"
| "rangeOrder [] (x # xs) = x # xs"
| "rangeOrder (c # cs) (x # xs) =
     (let i = c mod length (x # xs)
      in (x # xs) ! i # rangeOrder cs (take i (x # xs) @ drop (Suc i) (x # xs)))"

record CheckoutEnv =
  rangeChoices :: "nat list"
  redeemedNow :: time
  orderIDNow :: time
  createdNow :: time

record GenerateEnv =
  randDraws :: "nat \<Rightarrow> nat"
  generatedNow :: time

text \<open>\<open>fmt.Sprintf("%d", n)\<close>: the decimal digits, with a sign for a negative number.\<close>

fun digitsOf :: "nat \<Rightarrow> string" where
  "digitsOf n =
     (if n < 10 then [''0123456789'' ! n]
      else digitsOf (n div 10) @ [''0123456789'' ! (n mod 10)])"

definition formatInt :: "int \<Rightarrow> string" where
  "formatInt i = (if i < 0 then CHR ''-'' # digitsOf (nat (- i)) else digitsOf (nat i))"

definition generateOrderID :: "time \<Rightarrow> string" where
  "generateOrderID now = ''ord_'' @ formatInt now"

definition letters :: string where
  "letters = ''ABCDEFGHJKLMNPQRSTUVWXYZ23456789''"

text \<open>\<open>rand.Intn(n)\<close> returns a number below \<open>n\<close>; the \<open>i\<close>-th call made by one
  \<open>generateDiscountCode\<close> reads the \<open>i\<close>-th draw.\<close>

definition Intn :: "(nat \<Rightarrow> nat) \<Rightarrow> nat \<Rightarrow> nat \<Rightarrow> nat" where
  "Intn draws i n = draws i mod n"

definition generateDiscountCode :: "(nat \<Rightarrow> nat) \<Rightarrow> string" where
  "generateDiscountCode draws =
     ''DISC-'' @ map (\<lambda>i. letters ! Intn draws i (length letters)) [0..<6]"

subsection \<open>Checkout\<close>

text \<open>The loop over the cart's items (lines 138 to 142): it collects the items, adds up the
  gross amount, and adds every quantity to the store's \<open>totalItemsSold\<close>.\<close>

fun checkoutLoop ::
  "CartItem list \<Rightarrow> MemoryStore \<Rightarrow> CartItem list \<Rightarrow> real \<Rightarrow> MemoryStore \<times> CartItem list \<times> real"
where
  "checkoutLoop [] s items gross = (s, items, gross)"
| "checkoutLoop (item # rest) s items gross =
     checkoutLoop rest
       (s\<lparr>totalItemsSold := totalItemsSold s + Quantity item\<rparr>)
       (items @ [item])
       (gross + real_of_int (sint (Quantity item)) * Price item)"

definition Checkout ::
  "MemoryStore \<Rightarrow> string \<Rightarrow> string \<Rightarrow> CheckoutEnv \<Rightarrow> MemoryStore \<times> (Error + Order)"
where
  "Checkout s userID discountCode env =
     (let (s1, cart) = getOrCreateCart s userID
      in if length (Cart.Items cart) = 0 then (s1, Inl ErrCartEmpty)
         else
           let (s2, items, gross) =
                 checkoutLoop (rangeOrder (rangeChoices env) (map snd (Cart.Items cart))) s1 [] 0;
               redeemed =
                 (if discountCode \<noteq> [] then
                    (case activeDiscount s2 of
                       None \<Rightarrow> Inl ErrDiscountNotActive
                     | Some ad \<Rightarrow>
                         if IsRedeemed ad then Inl ErrDiscountAlreadyUsed
                         else if Code ad \<noteq> discountCode then Inl ErrDiscountMismatch
                         else
                           let discountApplied = gross * (Percentage ad / 100);
                               ad' = ad\<lparr>IsRedeemed := True, RedeemedAt := redeemedNow env\<rparr>
                           in Inr (s2\<lparr>discountHistory := discountHistory s2 @ [ad'],
                                      activeDiscount := None,
                                      nextEligibleOrder :=
                                        nextEligibleOrder s2 + nthOrderThreshold s2,
                                      totalDiscount := totalDiscount s2 + discountApplied\<rparr>,
                                   discountApplied, Code ad'))
                  else Inr (s2, 0, []))
           in case redeemed of
                Inl err \<Rightarrow> (s2, Inl err)
              | Inr (s3, discountApplied, codeUsed) \<Rightarrow>
                  let order =
                        \<lparr>ID = generateOrderID (orderIDNow env), UserID = userID, Items = items,
                         TotalAmount = gross - discountApplied, DiscountCode = codeUsed,
                         DiscountValue = discountApplied, CreatedAt = createdNow env\<rparr>
                  in (s3\<lparr>orders := orders s3 @ [order],
                         grossRevenue := grossRevenue s3 + gross,
                         carts := (carts s3)(userID \<mapsto> cart\<lparr>Cart.Items := []\<rparr>)\<rparr>,
                      Inr order))"

subsection \<open>Discount generation and statistics\<close>

definition GenerateDiscount ::
  "MemoryStore \<Rightarrow> GenerateEnv \<Rightarrow> MemoryStore \<times> (Error + DiscountCode)"
where
  "GenerateDiscount s env =
     (let totalOrders = int (length (orders s));
          eligible = (sint (nextEligibleOrder s) \<le> totalOrders)
      in if \<not> eligible \<or>
            (case activeDiscount s of None \<Rightarrow> False | Some ad \<Rightarrow> \<not> IsRedeemed ad)
         then (s, Inl ErrDiscountNotEligible)
         else
           let code = \<lparr>Code = generateDiscountCode (randDraws env), Percentage = 10,
                       GeneratedAt = generatedNow env, RedeemedAt = 0, IsRedeemed = False,
                       EligibleOrderNum = nextEligibleOrder s\<rparr>
           in (s\<lparr>activeDiscount := Some code\<rparr>, Inr code))"

definition Stats :: "MemoryStore \<Rightarrow> Stats" where
  "Stats s =
     (let history = discountHistory s;
          history = (case activeDiscount s of None \<Rightarrow> history | Some ad \<Rightarrow> history @ [ad])
      in \<lparr>TotalOrders = of_nat (length (orders s)), TotalItemsSold = totalItemsSold s,
          GrossRevenue = grossRevenue s, TotalDiscountGiven = totalDiscount s,
          DiscountCodes = history, ActiveDiscount = activeDiscount s\<rparr>)"

subsection \<open>Sequences of operations\<close>

datatype Op =
    OpAddItem string CartItem
  | OpViewCart string
  | OpCheckout string string CheckoutEnv
  | OpGenerateDiscount GenerateEnv
  | OpStats

datatype Reply =
    RCart Cart
  | RCheckout "Error + Order"
  | RGenerate "Error + DiscountCode"
  | RStats Stats

fun step :: "MemoryStore \<Rightarrow> Op \<Rightarrow> MemoryStore \<times> Reply" where
  "step s (OpAddItem userID item) = (let (s', c) = AddItem s userID item in (s', RCart c))"
| "step s (OpViewCart userID) = (let (s', c) = ViewCart s userID in (s', RCart c))"
| "step s (OpCheckout userID discountCode env) =
     (let (s', r) = Checkout s userID discountCode env in (s', RCheckout r))"
| "step s (OpGenerateDiscount env) = (let (s', r) = GenerateDiscount s env in (s', RGenerate r))"
| "step s OpStats = (s, RStats (Stats s))"

fun run :: "MemoryStore \<Rightarrow> Op list \<Rightarrow> MemoryStore" where
  "run s [] = s"
| "run s (op # ops) = run (fst (step s op)) ops"

subsection \<open>The HTTP handler in front of \<open>AddItem\<close>\<close>

text \<open>\<open>handleAddItem\<close> of the HTTP layer: the decoded request body has the fields of a
  \<open>CartItem\<close>; \<open>None\<close> is a body that does not decode. The answer is the status code and
  the payload written.\<close>

datatype Payload = CartPayload Cart | ErrorPayload string

definition handleAddItem ::
  "MemoryStore \<Rightarrow> string \<Rightarrow> CartItem option \<Rightarrow> MemoryStore \<times> nat \<times> Payload"
where
  "handleAddItem s userID body =
     (case body of
        None \<Rightarrow> (s, 400, ErrorPayload ''invalid payload'')
      | Some req \<Rightarrow>
          if SKU req = [] \<or> sint (Quantity req) \<le> 0 \<or> Price req \<le> 0
          then (s, 400, ErrorPayload ''sku, price and quantity are required'')
          else
            let (s', cart) =
                  AddItem s userID
                    \<lparr>SKU = SKU req, Name = Name req, Price = Price req,
                     Quantity = Quantity req\<rparr>
            in (s', 201, CartPayload cart))"

section \<open>Notions used to state the properties\<close>

text \<open>The items of a user's cart (none when the user has no cart), the gross amount of a
  list of items, and the entry of a user's cart for one sku.\<close>

definition cartItemsOf :: "MemoryStore \<Rightarrow> string \<Rightarrow> CartItem list" where
  "cartItemsOf s userID =
     (case carts s userID of None \<Rightarrow> [] | Some cart \<Rightarrow> map snd (Cart.Items cart))"

definition grossOf :: "CartItem list \<Rightarrow> real" where
  "grossOf items = (\<Sum>item\<leftarrow>items. real_of_int (sint (Quantity item)) * Price item)"

definition cartEntry :: "MemoryStore \<Rightarrow> string \<Rightarrow> string \<Rightarrow> CartItem option" where
  "cartEntry s userID sku =
     (case carts s userID of None \<Rightarrow> None | Some cart \<Rightarrow> map_of (Cart.Items cart) sku)"

text \<open>The items that a sequence of operations adds for one user under one sku, in the order
  of the calls, and the operations that are a checkout of that user.\<close>

fun addedItems :: "string \<Rightarrow> string \<Rightarrow> Op list \<Rightarrow> CartItem list" where
  "addedItems userID sku [] = []"
| "addedItems userID sku (OpAddItem u item # ops) =
     (if u = userID \<and> SKU item = sku then item # addedItems userID sku ops
      else addedItems userID sku ops)"
| "addedItems userID sku (_ # ops) = addedItems userID sku ops"

fun isCheckoutOf :: "string \<Rightarrow> Op \<Rightarrow> bool" where
  "isCheckoutOf userID (OpCheckout u _ _) = (u = userID)"
| "isCheckoutOf userID _ = False"

text \<open>What \<open>AddItem\<close> stores for an item, given the entry the cart has for its sku.\<close>

fun mergeEntry :: "CartItem option \<Rightarrow> CartItem \<Rightarrow> CartItem" where
  "mergeEntry None item = item"
| "mergeEntry (Some existing) item =
     existing\<lparr>Quantity := Quantity existing + Quantity item,
              Price := Price item, Name := Name item\<rparr>"

text \<open>A reply \<open>redeems\<close> when it is the success of a checkout that was given a discount
  code.\<close>

definition redeems :: "Op \<Rightarrow> Reply \<Rightarrow> bool" where
  "redeems op r =
     (case (op, r) of
        (OpCheckout userID discountCode env, RCheckout (Inr order)) \<Rightarrow> discountCode \<noteq> []
      | _ \<Rightarrow> False)"

text \<open>The facts about the eligibility counter that every store reached from a new one has:
  the threshold is positive and not above \<open>nextEligibleOrder\<close>, and while a code is active
  the number of orders has reached \<open>nextEligibleOrder\<close>.\<close>

definition eligibilityInv :: "MemoryStore \<Rightarrow> bool" where
  "eligibilityInv s \<longleftrightarrow>
     0 < sint (nthOrderThreshold s) \<and>
     sint (nthOrderThreshold s) \<le> sint (nextEligibleOrder s) \<and>
     (activeDiscount s \<noteq> None \<longrightarrow> sint (nextEligibleOrder s) \<le> int (length (orders s)))"




text \<open>The three aggregates as the specification derives them from the order ledger: the sum
  of the item quantities, of the gross amounts before discount, and of the discount values,
  over all recorded orders.\<close>

definition ledgerItemsSold :: "Order list \<Rightarrow> 64 word" where
  "ledgerItemsSold os = (\<Sum>order\<leftarrow>os. \<Sum>item\<leftarrow>Order.Items order. Quantity item)"

definition ledgerGross :: "Order list \<Rightarrow> real" where
  "ledgerGross os = (\<Sum>order\<leftarrow>os. grossOf (Order.Items order))"

definition ledgerDiscount :: "Order list \<Rightarrow> real" where
  "ledgerDiscount os = (\<Sum>order\<leftarrow>os. DiscountValue order)"

definition ledgerInv :: "MemoryStore \<Rightarrow> bool" where
  "ledgerInv s \<longleftrightarrow>
     grossRevenue s = ledgerGross (orders s) \<and> totalDiscount s = ledgerDiscount (orders s)"

subsection \<open>Concrete stores and inputs\<close>

text \<open>The items and prices are those of the repository's tests: a widget at 10, a cable at
  5, a bag at 50.\<close>

definition widget :: CartItem where
  "widget = \<lparr>SKU = ''SKU1'', Name = ''Widget'', Price = 10, Quantity = 2\<rparr>"

definition widgetAgain :: CartItem where
  "widgetAgain = \<lparr>SKU = ''SKU1'', Name = ''Widget (new)'', Price = 12, Quantity = 3\<rparr>"

definition cable :: CartItem where
  "cable = \<lparr>SKU = ''SKU2'', Name = ''Cable'', Price = 5, Quantity = 1\<rparr>"

definition bag :: CartItem where
  "bag = \<lparr>SKU = ''SKU2'', Name = ''Bag'', Price = 50, Quantity = 1\<rparr>"

definition invalidItem :: CartItem where
  "invalidItem = \<lparr>SKU = ''SKU1'', Name = ''Widget'', Price = 0, Quantity = - 1\<rparr>"

definition checkoutEnv0 :: CheckoutEnv where
  "checkoutEnv0 =
     \<lparr>rangeChoices = [], redeemedNow = 1000, orderIDNow = 1001, createdNow = 1002\<rparr>"

definition checkoutEnv1 :: CheckoutEnv where
  "checkoutEnv1 =
     \<lparr>rangeChoices = [1], redeemedNow = 2000, orderIDNow = 2001, createdNow = 2002\<rparr>"

definition checkoutEnv2 :: CheckoutEnv where
  "checkoutEnv2 =
     \<lparr>rangeChoices = [], redeemedNow = 4000, orderIDNow = 4001, createdNow = 4002\<rparr>"

definition generateEnv0 :: GenerateEnv where
  "generateEnv0 = \<lparr>randDraws = (\<lambda>i. 0), generatedNow = 500\<rparr>"

definition generateEnv1 :: GenerateEnv where
  "generateEnv1 = \<lparr>randDraws = (\<lambda>i. 0), generatedNow = 3000\<rparr>"

definition generateEnv2 :: GenerateEnv where
  "generateEnv2 = \<lparr>randDraws = (\<lambda>i. 1), generatedNow = 3000\<rparr>"

definition widgetStore :: MemoryStore where
  "widgetStore = run (NewMemoryStore 3) [OpAddItem ''user-1'' widget]"

definition failedThenPaidOps :: "Op list" where
  "failedThenPaidOps =
     [OpAddItem ''user-1'' widget,
      OpCheckout ''user-1'' ''DISC-AAAAAA'' checkoutEnv0,
      OpCheckout ''user-1'' [] checkoutEnv1]"

definition storeAfterOneOrder :: MemoryStore where
  "storeAfterOneOrder =
     run (NewMemoryStore 1) [OpAddItem ''user-1'' widget, OpCheckout ''user-1'' [] checkoutEnv0]"

definition twoItemStore :: MemoryStore where
  "twoItemStore =
     run (NewMemoryStore 3) [OpAddItem ''user-1'' widget, OpAddItem ''user-1'' cable]"

definition twoItemOrder :: Order where
  "twoItemOrder =
     \<lparr>ID = ''ord_2001'', UserID = ''user-1'', Items = [cable, widget], TotalAmount = 25,
      DiscountCode = [], DiscountValue = 0, CreatedAt = 2002\<rparr>"

definition discountOps :: "Op list" where
  "discountOps =
     [OpAddItem ''user-1'' widget, OpCheckout ''user-1'' [] checkoutEnv0,
      OpGenerateDiscount generateEnv0, OpAddItem ''user-2'' bag]"

definition discountStore :: MemoryStore where
  "discountStore = run (NewMemoryStore 1) discountOps"

definition discountedOrder :: Order where
  "discountedOrder =
     \<lparr>ID = ''ord_2001'', UserID = ''user-2'', Items = [bag], TotalAmount = 45,
      DiscountCode = ''DISC-AAAAAA'', DiscountValue = 5, CreatedAt = 2002\<rparr>"

definition maxWidget :: CartItem where
  "maxWidget =
     \<lparr>SKU = ''SKU1'', Name = ''Widget'', Price = 10, Quantity = 9223372036854775807\<rparr>"

definition oneWidget :: CartItem where
  "oneWidget = \<lparr>SKU = ''SKU1'', Name = ''Widget'', Price = 10, Quantity = 1\<rparr>"

definition overflowOps :: "Op list" where
  "overflowOps = [OpAddItem ''user-1'' maxWidget, OpAddItem ''user-1'' oneWidget]"

definition addOps :: "Op list" where
  "addOps =
     [OpAddItem ''user-1'' widget, OpViewCart ''user-1'', OpAddItem ''user-1'' cable,
      OpAddItem ''user-2'' widget, OpCheckout ''user-2'' [] checkoutEnv0,
      OpAddItem ''user-1'' widgetAgain]"

lemmas eval_defs =
  NewMemoryStore_def AddItem_def ViewCart_def getOrCreateCart_def Checkout_def
  GenerateDiscount_def generateDiscountCode_def Intn_def letters_def
  generateOrderID_def formatInt_def Let_def upt_rec
  widget_def bag_def cable_def checkoutEnv0_def checkoutEnv1_def checkoutEnv2_def
  generateEnv0_def generateEnv1_def generateEnv2_def

section \<open>Properties\<close>

subsection \<open>The loop of checkout and the order of iteration\<close>

lemma checkoutLoop_eq:
  "checkoutLoop xs s items gross =
     (s\<lparr>totalItemsSold := totalItemsSold s + sum_list (map Quantity xs)\<rparr>, items @ xs, gross + grossOf xs)"
  by (induction xs arbitrary: s items gross) (simp_all add: grossOf_def algebra_simps)

lemma mset_rangeOrder: "mset (rangeOrder cs xs) = mset xs"
proof (induction cs xs rule: rangeOrder.induct)
  case (3 c cs x xs)
  define l where "l = x # xs"
  define i where "i = c mod length l"
  have i: "i < length l" by (simp add: i_def l_def)
  have split: "l = take i l @ l ! i # drop (Suc i) l"
    using id_take_nth_drop [OF i] .
  have IH: "mset (rangeOrder cs (take i l @ drop (Suc i) l)) = mset (take i l @ drop (Suc i) l)"
    using 3 [of i] by (simp add: i_def l_def)
  have "rangeOrder (c # cs) l = l ! i # rangeOrder cs (take i l @ drop (Suc i) l)"
    by (simp add: l_def i_def Let_def)
  then have "mset (rangeOrder (c # cs) l) = mset (take i l @ l ! i # drop (Suc i) l)"
    using IH by simp
  also have "\<dots> = mset l"
    using arg_cong [OF split, of mset] by (simp only:)
  finally show ?case by (simp only: l_def)
qed simp_all

text \<open>Every order of the entries is the visiting order for some choices.\<close>

lemma rangeOrder_complete: "mset ys = mset xs \<Longrightarrow> \<exists>cs. rangeOrder cs xs = ys"
proof (induction ys arbitrary: xs)
  case Nil
  then show ?case by simp
next
  case (Cons y ys)
  then have "y \<in> set xs"
    by (metis list.set_intros(1) mset_eq_setD)
  then obtain i where i: "i < length xs" and y: "xs ! i = y"
    by (auto simp: in_set_conv_nth)
  define rest where "rest = take i xs @ drop (Suc i) xs"
  have "xs = take i xs @ y # drop (Suc i) xs"
    using id_take_nth_drop [OF i] y by simp
  then have "mset xs = add_mset y (mset rest)"
    unfolding rest_def by (metis mset.simps(2) mset_append union_mset_add_mset_right)
  then have "mset ys = mset rest"
    using Cons.prems by simp
  then obtain cs where cs: "rangeOrder cs rest = ys"
    using Cons.IH by blast
  obtain x xs' where xs: "xs = x # xs'"
    using i by (cases xs) auto
  have "rangeOrder (i # cs) xs = y # ys"
    using i y cs unfolding xs rest_def by (simp add: Let_def)
  then show ?case by blast
qed

lemma sum_list_map_mset:
  fixes f :: "'a \<Rightarrow> 'b::comm_monoid_add"
  assumes "mset xs = mset ys"
  shows "sum_list (map f xs) = sum_list (map f ys)"
proof -
  have "sum_list (map f zs) = sum_mset (image_mset f (mset zs))" for zs
    by (simp only: mset_map [symmetric] sum_mset_sum_list)
  then show ?thesis using assms by simp
qed

lemma sold_rangeOrder:
  "sum_list (map Quantity (rangeOrder cs xs)) = sum_list (map Quantity xs)"
  by (rule sum_list_map_mset) (rule mset_rangeOrder)

subsection \<open>What each operation does to the orders and the discount state\<close>

lemma Checkout_discount_state:
  assumes "Checkout s u c env = (s', r)"
  shows "nthOrderThreshold s' = nthOrderThreshold s \<and>
     (case r of
        Inl e \<Rightarrow> nextEligibleOrder s' = nextEligibleOrder s \<and>
                 activeDiscount s' = activeDiscount s \<and> orders s' = orders s
      | Inr order \<Rightarrow>
          orders s' = orders s @ [order] \<and>
          (if c = [] then nextEligibleOrder s' = nextEligibleOrder s \<and>
                          activeDiscount s' = activeDiscount s
           else activeDiscount s \<noteq> None \<and> activeDiscount s' = None \<and>
                nextEligibleOrder s' = nextEligibleOrder s + nthOrderThreshold s))"
  using assms unfolding Checkout_def getOrCreateCart_def
  by (auto simp: checkoutLoop_eq Let_def split: option.splits sum.splits prod.splits if_splits)

lemma AddItem_discount_state:
  assumes "AddItem s u item = (s', c)"
  shows "nthOrderThreshold s' = nthOrderThreshold s \<and> nextEligibleOrder s' = nextEligibleOrder s \<and>
     activeDiscount s' = activeDiscount s \<and> orders s' = orders s"
  using assms unfolding AddItem_def getOrCreateCart_def
  by (auto simp: Let_def split: option.splits)

lemma ViewCart_discount_state:
  assumes "ViewCart s u = (s', c)"
  shows "nthOrderThreshold s' = nthOrderThreshold s \<and> nextEligibleOrder s' = nextEligibleOrder s \<and>
     activeDiscount s' = activeDiscount s \<and> orders s' = orders s"
  using assms unfolding ViewCart_def getOrCreateCart_def
  by (auto split: option.splits)

lemma GenerateDiscount_discount_state:
  assumes "GenerateDiscount s env = (s', r)"
  shows "nthOrderThreshold s' = nthOrderThreshold s \<and> nextEligibleOrder s' = nextEligibleOrder s \<and>
     orders s' = orders s \<and>
     (case r of
        Inl e \<Rightarrow> activeDiscount s' = activeDiscount s
      | Inr code \<Rightarrow> activeDiscount s' = Some code \<and> \<not> IsRedeemed code \<and>
                     Code code = generateDiscountCode (randDraws env) \<and>
                     sint (nextEligibleOrder s) \<le> int (length (orders s)))"
  using assms unfolding GenerateDiscount_def
  by (auto simp: Let_def split: option.splits if_splits)

lemma step_discount_state:
  assumes st: "step s op = (s', r)"
  shows "nthOrderThreshold s' = nthOrderThreshold s \<and>
         length (orders s) \<le> length (orders s') \<and>
         length (orders s') \<le> Suc (length (orders s)) \<and>
         (if redeems op r
          then activeDiscount s \<noteq> None \<and> activeDiscount s' = None \<and>
               nextEligibleOrder s' = nextEligibleOrder s + nthOrderThreshold s
          else nextEligibleOrder s' = nextEligibleOrder s \<and>
               (activeDiscount s' = activeDiscount s \<or> activeDiscount s' = None \<or>
                (\<exists>env code. op = OpGenerateDiscount env \<and> activeDiscount s' = Some code \<and>
                   \<not> IsRedeemed code \<and> Code code = generateDiscountCode (randDraws env) \<and>
                   orders s' = orders s \<and>
                   sint (nextEligibleOrder s) \<le> int (length (orders s)))))"
proof (cases op)
  case (OpAddItem u item)
  obtain s1 c where "AddItem s u item = (s1, c)"
    by (cases "AddItem s u item")
  then have "AddItem s u item = (s', c)" and "r = RCart c"
    using st OpAddItem by simp_all
  then show ?thesis
    using AddItem_discount_state [of s u item s' c] OpAddItem by (simp add: redeems_def)
next
  case (OpViewCart u)
  obtain s1 c where "ViewCart s u = (s1, c)"
    by (cases "ViewCart s u")
  then have "ViewCart s u = (s', c)" and "r = RCart c"
    using st OpViewCart by simp_all
  then show ?thesis
    using ViewCart_discount_state [of s u s' c] OpViewCart by (simp add: redeems_def)
next
  case (OpCheckout u c env)
  obtain s1 r' where "Checkout s u c env = (s1, r')"
    by (cases "Checkout s u c env")
  then have co: "Checkout s u c env = (s', r')" and r: "r = RCheckout r'"
    using st OpCheckout by simp_all
  show ?thesis
    using Checkout_discount_state [OF co] OpCheckout r
    by (cases r') (auto simp: redeems_def split: if_splits)
next
  case (OpGenerateDiscount env)
  obtain s1 r' where "GenerateDiscount s env = (s1, r')"
    by (cases "GenerateDiscount s env")
  then have g: "GenerateDiscount s env = (s', r')" and r: "r = RGenerate r'"
    using st OpGenerateDiscount by simp_all
  show ?thesis
    using GenerateDiscount_discount_state [OF g] OpGenerateDiscount r
    by (cases r') (auto simp: redeems_def)
next
  case OpStats
  then show ?thesis using st by (auto simp: redeems_def)
qed

lemma run_snoc: "run s (ops @ [op]) = fst (step (run s ops) op)"
  by (induction ops arbitrary: s) simp_all

lemma length_orders_run: "length (orders (run s ops)) \<le> length (orders s) + length ops"
proof (induction ops rule: rev_induct)
  case Nil
  then show ?case by simp
next
  case (snoc op ops)
  obtain s' r where st: "step (run s ops) op = (s', r)"
    by (cases "step (run s ops) op")
  then show ?case
    using snoc step_discount_state [OF st] by (simp add: run_snoc)
qed

lemma threshold_run: "nthOrderThreshold (run s ops) = nthOrderThreshold s"
proof (induction ops rule: rev_induct)
  case Nil
  then show ?case by simp
next
  case (snoc op ops)
  obtain s' r where st: "step (run s ops) op = (s', r)"
    by (cases "step (run s ops) op")
  then show ?case
    using snoc step_discount_state [OF st] by (simp add: run_snoc)
qed

subsection \<open>The concrete stores, evaluated\<close>

lemma storeAfterOneOrder_discount:
  "orders storeAfterOneOrder =
     [\<lparr>ID = ''ord_1001'', UserID = ''user-1'', Items = [widget], TotalAmount = 20,
       DiscountCode = [], DiscountValue = 0, CreatedAt = 1002\<rparr>] \<and>
   activeDiscount storeAfterOneOrder = None \<and>
   nextEligibleOrder storeAfterOneOrder = 1 \<and>
   nthOrderThreshold storeAfterOneOrder = 1"
  by (simp add: storeAfterOneOrder_def NewMemoryStore_def AddItem_def getOrCreateCart_def
      Checkout_def widget_def checkoutEnv0_def generateOrderID_def formatInt_def Let_def)

lemma twoItemStore_cart:
  "carts twoItemStore ''user-1'' = Some \<lparr>Cart.Items = [(''SKU1'', widget), (''SKU2'', cable)]\<rparr>"
  by (simp add: twoItemStore_def eval_defs)

lemma twoItemStore_checkout:
  "snd (Checkout twoItemStore ''user-1'' [] checkoutEnv1) = Inr twoItemOrder"
  unfolding Checkout_def getOrCreateCart_def
  by (simp add: twoItemStore_cart twoItemOrder_def Let_def generateOrderID_def formatInt_def
      checkoutEnv1_def widget_def cable_def)

lemma discountStore_eq:
  "discountStore =
     \<lparr>carts = [''user-1'' \<mapsto> \<lparr>Cart.Items = []\<rparr>,
               ''user-2'' \<mapsto> \<lparr>Cart.Items = [(''SKU2'', bag)]\<rparr>],
      orders = [\<lparr>ID = ''ord_1001'', UserID = ''user-1'', Items = [widget], TotalAmount = 20,
                 DiscountCode = [], DiscountValue = 0, CreatedAt = 1002\<rparr>],
      discountHistory = [],
      activeDiscount =
        Some \<lparr>Code = ''DISC-AAAAAA'', Percentage = 10, GeneratedAt = 500, RedeemedAt = 0,
               IsRedeemed = False, EligibleOrderNum = 1\<rparr>,
      nthOrderThreshold = 1, nextEligibleOrder = 1, totalItemsSold = 2,
      grossRevenue = 20, totalDiscount = 0\<rparr>"
  by (simp add: discountStore_def discountOps_def eval_defs)

lemma discountStore_checkout:
  "Checkout discountStore ''user-2'' ''DISC-AAAAAA'' checkoutEnv1 =
     (\<lparr>carts = [''user-1'' \<mapsto> \<lparr>Cart.Items = []\<rparr>, ''user-2'' \<mapsto> \<lparr>Cart.Items = []\<rparr>],
       orders = [\<lparr>ID = ''ord_1001'', UserID = ''user-1'', Items = [widget], TotalAmount = 20,
                 DiscountCode = [], DiscountValue = 0, CreatedAt = 1002\<rparr>, discountedOrder],
       discountHistory =
         [\<lparr>Code = ''DISC-AAAAAA'', Percentage = 10, GeneratedAt = 500, RedeemedAt = 2000,
           IsRedeemed = True, EligibleOrderNum = 1\<rparr>],
       activeDiscount = None,
       nthOrderThreshold = 1, nextEligibleOrder = 2, totalItemsSold = 3,
       grossRevenue = 70, totalDiscount = 5\<rparr>,
      Inr discountedOrder)"
  unfolding discountStore_eq
  by (simp add: Checkout_def getOrCreateCart_def discountedOrder_def Let_def generateOrderID_def
      formatInt_def checkoutEnv1_def bag_def)

lemma widgetStore_eq:
  "widgetStore =
     \<lparr>carts = [''user-1'' \<mapsto> \<lparr>Cart.Items = [(''SKU1'', widget)]\<rparr>],
      orders = [], discountHistory = [], activeDiscount = None,
      nthOrderThreshold = 3, nextEligibleOrder = 3, totalItemsSold = 0,
      grossRevenue = 0, totalDiscount = 0\<rparr>"
proof -
  have sku: "SKU widget = ''SKU1''"
    by (simp add: widget_def)
  show ?thesis
    by (simp add: widgetStore_def NewMemoryStore_def AddItem_def getOrCreateCart_def Let_def sku)
qed


subsection \<open>Checkout creates the cart entry\<close>

text \<open>C10: after every checkout the user has a cart entry in the registry. For a user who
  had none, the checkout fails with \<open>ErrCartEmpty\<close>, the only change of the store is the new
  empty cart, and viewing the cart afterwards returns that empty cart without changing the
  store again.\<close>

theorem checkout_creates_cart:
  "carts (fst (Checkout s userID discountCode env)) userID \<noteq> None \<and>
   (carts s userID = None \<longrightarrow>
      Checkout s userID discountCode env =
        (s\<lparr>carts := (carts s)(userID \<mapsto> \<lparr>Cart.Items = []\<rparr>)\<rparr>, Inl ErrCartEmpty) \<and>
      ViewCart (fst (Checkout s userID discountCode env)) userID =
        (fst (Checkout s userID discountCode env), \<lparr>Cart.Items = []\<rparr>))"
  unfolding Checkout_def getOrCreateCart_def ViewCart_def
  by (auto simp: checkoutLoop_eq Let_def split: option.splits sum.splits prod.splits)

theorem checkout_creates_cart_witness:
  "carts (NewMemoryStore 3) ''user-9'' = None \<and>
   Checkout (NewMemoryStore 3) ''user-9'' [] checkoutEnv0 =
     ((NewMemoryStore 3)\<lparr>carts := (carts (NewMemoryStore 3))(''user-9'' \<mapsto> \<lparr>Cart.Items = []\<rparr>)\<rparr>,
      Inl ErrCartEmpty) \<and>
   ViewCart (fst (Checkout (NewMemoryStore 3) ''user-9'' [] checkoutEnv0)) ''user-9'' =
     (fst (Checkout (NewMemoryStore 3) ''user-9'' [] checkoutEnv0), \<lparr>Cart.Items = []\<rparr>)"
proof -
  have none: "carts (NewMemoryStore 3) ''user-9'' = None"
    by (simp add: NewMemoryStore_def)
  show ?thesis
    using none checkout_creates_cart [of "NewMemoryStore 3" "''user-9''" "[]" checkoutEnv0]
    by blast
qed

subsection \<open>Generating a discount code\<close>

text \<open>C4: generation succeeds exactly when the number of recorded orders has reached
  \<open>nextEligibleOrder\<close> and no unredeemed code is active. It then stores the new code as the
  active one, with percentage 10 and the current \<open>nextEligibleOrder\<close> as its eligible order
  number, and changes nothing else; otherwise it returns \<open>ErrDiscountNotEligible\<close> and the
  store as it was.\<close>

theorem generate_discount_iff:
  "(let ok = (sint (nextEligibleOrder s) \<le> int (length (orders s)) \<and>
              \<not> (\<exists>ad. activeDiscount s = Some ad \<and> \<not> IsRedeemed ad))
    in (ok \<longrightarrow>
          (\<exists>code. GenerateDiscount s env = (s\<lparr>activeDiscount := Some code\<rparr>, Inr code) \<and>
                  Percentage code = 10 \<and>
                  EligibleOrderNum code = nextEligibleOrder s \<and>
                  \<not> IsRedeemed code)) \<and>
       (\<not> ok \<longrightarrow> GenerateDiscount s env = (s, Inl ErrDiscountNotEligible)))"
  unfolding GenerateDiscount_def
  by (auto simp: Let_def split: option.splits)

theorem generate_discount_iff_witness:
  "GenerateDiscount (NewMemoryStore 3) generateEnv0 =
     (NewMemoryStore 3, Inl ErrDiscountNotEligible) \<and>
   (\<exists>code. GenerateDiscount storeAfterOneOrder generateEnv0 =
             (storeAfterOneOrder\<lparr>activeDiscount := Some code\<rparr>, Inr code) \<and>
           Percentage code = 10 \<and> EligibleOrderNum code = 1 \<and> \<not> IsRedeemed code)"
  using generate_discount_iff [of "NewMemoryStore 3" generateEnv0]
    generate_discount_iff [of storeAfterOneOrder generateEnv0]
  by (simp add: storeAfterOneOrder_discount Let_def) (simp add: NewMemoryStore_def)

subsection \<open>A successful checkout\<close>

text \<open>C5: a checkout that succeeds was made on a non-empty cart; afterwards the user's cart
  entry is still there and has no items, and the items of the returned order are, as a
  multiset, the items the cart had before. The order of the items in the order is the order in
  which the loop visited the map.\<close>

theorem checkout_empties_cart:
  assumes "Checkout s userID discountCode env = (s', Inr order)"
  shows "cartItemsOf s userID \<noteq> [] \<and>
         carts s' userID = Some \<lparr>Cart.Items = []\<rparr> \<and>
         mset (Order.Items order) = mset (cartItemsOf s userID)"
  using assms unfolding Checkout_def getOrCreateCart_def cartItemsOf_def
  by (auto simp: checkoutLoop_eq Let_def mset_rangeOrder split: option.splits sum.splits prod.splits if_splits)

theorem checkout_empties_cart_witness:
  "snd (Checkout twoItemStore ''user-1'' [] checkoutEnv1) = Inr twoItemOrder \<and>
   cartItemsOf twoItemStore ''user-1'' = [widget, cable] \<and>
   Order.Items twoItemOrder = [cable, widget] \<and>
   carts (fst (Checkout twoItemStore ''user-1'' [] checkoutEnv1)) ''user-1'' =
     Some \<lparr>Cart.Items = []\<rparr> \<and>
   mset (Order.Items twoItemOrder) = mset (cartItemsOf twoItemStore ''user-1'')"
proof -
  have ev: "Checkout twoItemStore ''user-1'' [] checkoutEnv1 =
              (fst (Checkout twoItemStore ''user-1'' [] checkoutEnv1), Inr twoItemOrder)"
    using twoItemStore_checkout by (simp add: prod_eq_iff)
  show ?thesis
    using checkout_empties_cart [OF ev] twoItemStore_checkout
    by (simp add: cartItemsOf_def twoItemStore_cart twoItemOrder_def)
qed

subsection \<open>Adding items under one sku\<close>

lemma cartEntry_AddItem:
  "cartEntry (fst (AddItem s u item)) u' k =
     (if u' = u \<and> k = SKU item then Some (mergeEntry (cartEntry s u k) item)
      else cartEntry s u' k)"
  unfolding AddItem_def getOrCreateCart_def cartEntry_def
  by (auto simp: Let_def AList.update_conv' split: option.splits)

lemma cartEntry_ViewCart: "cartEntry (fst (ViewCart s u)) u' k = cartEntry s u' k"
  unfolding ViewCart_def getOrCreateCart_def cartEntry_def
  by (auto split: option.splits)

lemma cartEntry_Checkout_other:
  "u \<noteq> u' \<Longrightarrow> cartEntry (fst (Checkout s u c env)) u' k = cartEntry s u' k"
  unfolding Checkout_def getOrCreateCart_def cartEntry_def
  by (auto simp: Let_def checkoutLoop_eq split: option.splits sum.splits prod.splits)

lemma cartEntry_GenerateDiscount: "cartEntry (fst (GenerateDiscount s env)) u' k = cartEntry s u' k"
  unfolding GenerateDiscount_def cartEntry_def
  by (auto simp: Let_def split: option.splits)

lemma cartEntry_step:
  "\<not> isCheckoutOf u op \<Longrightarrow>
   cartEntry (fst (step s op)) u k =
     (case addedItems u k [op] of [] \<Rightarrow> cartEntry s u k
      | item # _ \<Rightarrow> Some (mergeEntry (cartEntry s u k) item))"
  by (cases op)
     (simp_all add: case_prod_beta cartEntry_AddItem cartEntry_ViewCart
        cartEntry_Checkout_other cartEntry_GenerateDiscount)

lemma cartEntry_run:
  "\<forall>op\<in>set ops. \<not> isCheckoutOf u op \<Longrightarrow>
   cartEntry (run s ops) u k =
     foldl (\<lambda>e item. Some (mergeEntry e item)) (cartEntry s u k) (addedItems u k ops)"
proof (induction ops arbitrary: s)
  case Nil
  then show ?case by simp
next
  case (Cons op ops)
  then have no: "\<not> isCheckoutOf u op" and rest: "\<forall>op\<in>set ops. \<not> isCheckoutOf u op"
    by simp_all
  have "addedItems u k (op # ops) = addedItems u k [op] @ addedItems u k ops"
    by (cases op) simp_all
  then show ?case
    using Cons.IH [OF rest, of "fst (step s op)"] cartEntry_step [OF no, of s k]
    by (cases "addedItems u k [op]") (auto split: list.splits if_splits elim: addedItems.elims)
qed

lemma sint_sum_list:
  "sint (sum_list ws) = signed_take_bit 63 (sum_list (map sint ws))"
  for ws :: "64 word list"
proof (induction ws)
  case Nil
  then show ?case by simp
next
  case (Cons w ws)
  have w: "signed_take_bit 63 (sint w) = sint w"
    using sint_ge [of w] sint_lt [of w] by (simp add: signed_take_bit_int_eq_self)
  have "sint (w + sum_list ws) = signed_take_bit 63 (sint w + sint (sum_list ws))"
    by (simp add: sint_word_ariths)
  also have "\<dots> = signed_take_bit 63 (signed_take_bit 63 (sint w) + signed_take_bit 63 (sum_list (map sint ws)))"
    using Cons w by simp
  also have "\<dots> = signed_take_bit 63 (sint w + sum_list (map sint ws))"
    by (rule signed_take_bit_add)
  finally show ?case by simp
qed

lemma foldl_mergeEntry:
  "foldl (\<lambda>e item. Some (mergeEntry e item)) (Some e0) items =
     Some (e0\<lparr>Quantity := Quantity e0 + sum_list (map Quantity items),
               Price := (if items = [] then Price e0 else Price (last items)),
               Name := (if items = [] then Name e0 else Name (last items))\<rparr>)"
  by (induction items arbitrary: e0) (simp_all add: add.assoc)

lemma addedItems_SKU: "item \<in> set (addedItems u k ops) \<Longrightarrow> SKU item = k"
  by (induction u k ops rule: addedItems.induct) (auto split: if_splits)

text \<open>C8, as the code has it: take a store in which the user's cart has no entry for a sku,
  and any sequence of operations without a checkout of that user in which at least one item is
  added for the user under that sku. Afterwards the cart's entry for the sku has the name and
  the price of the last of these items, and as quantity the sum of their quantities in Go's
  \<open>int\<close>, which wraps at 64 bits: it is the sum of the numbers whenever that lies between
  \<open>-2^63\<close> and \<open>2^63 - 1\<close>.\<close>

theorem addItem_same_sku:
  assumes absent: "cartEntry s userID sku = None"
    and nocheckout: "\<forall>op\<in>set ops. \<not> isCheckoutOf userID op"
    and nonempty: "addedItems userID sku ops \<noteq> []"
  shows "cartEntry (run s ops) userID sku =
           Some \<lparr>SKU = sku,
                 Name = Name (last (addedItems userID sku ops)),
                 Price = Price (last (addedItems userID sku ops)),
                 Quantity = sum_list (map Quantity (addedItems userID sku ops))\<rparr> \<and>
         (- (2 ^ 63) \<le> (\<Sum>item\<leftarrow>addedItems userID sku ops. sint (Quantity item)) \<and>
          (\<Sum>item\<leftarrow>addedItems userID sku ops. sint (Quantity item)) < 2 ^ 63 \<longrightarrow>
          sint (sum_list (map Quantity (addedItems userID sku ops))) =
            (\<Sum>item\<leftarrow>addedItems userID sku ops. sint (Quantity item)))"
proof -
  obtain item rest where added: "addedItems userID sku ops = item # rest"
    using nonempty by (cases "addedItems userID sku ops") auto
  have sku: "SKU item = sku"
    using addedItems_SKU [of item userID sku ops] added by simp
  have "cartEntry (run s ops) userID sku =
          foldl (\<lambda>e item. Some (mergeEntry e item)) (Some item) rest"
    using cartEntry_run [OF nocheckout, of s sku] absent added by simp
  also have "\<dots> = Some (item\<lparr>Quantity := Quantity item + sum_list (map Quantity rest),
                               Price := (if rest = [] then Price item else Price (last rest)),
                               Name := (if rest = [] then Name item else Name (last rest))\<rparr>)"
    by (rule foldl_mergeEntry)
  also have "\<dots> = Some \<lparr>SKU = sku,
                 Name = Name (last (item # rest)),
                 Price = Price (last (item # rest)),
                 Quantity = sum_list (map Quantity (item # rest))\<rparr>"
    using sku by simp
  finally have entry: "cartEntry (run s ops) userID sku =
           Some \<lparr>SKU = sku,
                 Name = Name (last (addedItems userID sku ops)),
                 Price = Price (last (addedItems userID sku ops)),
                 Quantity = sum_list (map Quantity (addedItems userID sku ops))\<rparr>"
    unfolding added .
  have "sint (sum_list (map Quantity (addedItems userID sku ops))) =
          signed_take_bit 63 (\<Sum>item\<leftarrow>addedItems userID sku ops. sint (Quantity item))"
    using sint_sum_list [of "map Quantity (addedItems userID sku ops)"]
    by (simp add: comp_def)
  then show ?thesis
    using entry by (simp add: signed_take_bit_int_eq_self)
qed

theorem addItem_same_sku_witness:
  "addedItems ''user-1'' ''SKU1'' addOps = [widget, widgetAgain] \<and>
   cartEntry (NewMemoryStore 3) ''user-1'' ''SKU1'' = None \<and>
   cartEntry (run (NewMemoryStore 3) addOps) ''user-1'' ''SKU1'' =
     Some \<lparr>SKU = ''SKU1'', Name = ''Widget (new)'', Price = 12, Quantity = 5\<rparr>"
proof -
  have added: "addedItems ''user-1'' ''SKU1'' addOps = [widget, widgetAgain]"
    by (simp add: addOps_def widget_def widgetAgain_def cable_def)
  have absent: "cartEntry (NewMemoryStore 3) ''user-1'' ''SKU1'' = None"
    by (simp add: cartEntry_def NewMemoryStore_def)
  have nocheckout: "\<forall>op\<in>set addOps. \<not> isCheckoutOf ''user-1'' op"
    by (simp add: addOps_def)
  have nonempty: "addedItems ''user-1'' ''SKU1'' addOps \<noteq> []"
    using added by simp
  show ?thesis
    using addItem_same_sku [OF absent nocheckout nonempty] added absent
    by (simp add: widget_def widgetAgain_def)
qed

text \<open>C8 as stated fails: adding the largest \<open>int\<close> and then 1 under one sku, two items
  that the HTTP handler accepts, leaves the quantity \<open>-2^63\<close>, where the sum of the two
  numbers is \<open>2^63\<close>.\<close>

theorem addItem_quantity_wraps:
  "fst (snd (handleAddItem (NewMemoryStore 3) ''user-1'' (Some maxWidget))) = 201 \<and>
   fst (snd (handleAddItem (fst (AddItem (NewMemoryStore 3) ''user-1'' maxWidget)) ''user-1''
               (Some oneWidget))) = 201 \<and>
   addedItems ''user-1'' ''SKU1'' overflowOps = [maxWidget, oneWidget] \<and>
   sint (Quantity maxWidget) + sint (Quantity oneWidget) = 9223372036854775808 \<and>
   cartEntry (run (NewMemoryStore 3) overflowOps) ''user-1'' ''SKU1'' =
     Some \<lparr>SKU = ''SKU1'', Name = ''Widget'', Price = 10,
           Quantity = - 9223372036854775808\<rparr> \<and>
   sint (- 9223372036854775808 :: 64 word) = - 9223372036854775808"
proof -
  have accepted: "fst (snd (handleAddItem s ''user-1'' (Some maxWidget))) = 201"
    "fst (snd (handleAddItem s ''user-1'' (Some oneWidget))) = 201" for s
    by (simp_all add: handleAddItem_def maxWidget_def oneWidget_def case_prod_beta)
  have added: "addedItems ''user-1'' ''SKU1'' overflowOps = [maxWidget, oneWidget]"
    by (simp add: overflowOps_def maxWidget_def oneWidget_def)
  have sum: "sint (Quantity maxWidget) + sint (Quantity oneWidget) = 9223372036854775808"
    by (simp add: maxWidget_def oneWidget_def)
  have entry: "cartEntry (run (NewMemoryStore 3) overflowOps) ''user-1'' ''SKU1'' =
     Some \<lparr>SKU = ''SKU1'', Name = ''Widget'', Price = 10,
           Quantity = - 9223372036854775808\<rparr>"
    by (simp add: overflowOps_def cartEntry_AddItem case_prod_beta maxWidget_def oneWidget_def)
       (simp add: cartEntry_def NewMemoryStore_def)
  have wrapped: "sint (- 9223372036854775808 :: 64 word) = - 9223372036854775808"
    by simp
  show ?thesis
    using accepted added sum entry wrapped by simp
qed

subsection \<open>The next eligible order\<close>

lemma eligibilityInv_New: "eligibilityInv (NewMemoryStore n)"
  unfolding eligibilityInv_def NewMemoryStore_def by (simp add: Let_def)

lemma sint_add_no_overflow:
  fixes a b :: "64 word"
  assumes "0 < sint a" "sint a \<le> sint b" "sint b \<le> int L" "L < 2 ^ 62"
  shows "sint (b + a) = sint b + sint a"
proof -
  have "sint (b + a) = signed_take_bit 63 (sint b + sint a)"
    by (simp add: sint_word_ariths)
  moreover have "- (2 ^ 63) \<le> sint b + sint a" "sint b + sint a < 2 ^ 63"
    using assms by simp_all
  ultimately show ?thesis
    by (simp add: signed_take_bit_int_eq_self)
qed

lemma eligibilityInv_step:
  assumes inv: "eligibilityInv s" and bound: "length (orders s) < 2 ^ 62"
    and st: "step s op = (s', r)"
  shows "eligibilityInv s'"
proof (cases "redeems op r")
  case True
  then have act: "activeDiscount s \<noteq> None" and act': "activeDiscount s' = None"
    and nxt: "nextEligibleOrder s' = nextEligibleOrder s + nthOrderThreshold s"
    and thr: "nthOrderThreshold s' = nthOrderThreshold s"
    using step_discount_state [OF st] by simp_all
  have le: "sint (nextEligibleOrder s) \<le> int (length (orders s))"
    using inv act by (simp add: eligibilityInv_def)
  have "sint (nextEligibleOrder s + nthOrderThreshold s) =
          sint (nextEligibleOrder s) + sint (nthOrderThreshold s)"
    using inv le bound by (intro sint_add_no_overflow) (simp_all add: eligibilityInv_def)
  then show ?thesis
    using inv act' nxt thr by (simp add: eligibilityInv_def)
next
  case False
  then have thr: "nthOrderThreshold s' = nthOrderThreshold s"
    and nxt: "nextEligibleOrder s' = nextEligibleOrder s"
    and act: "activeDiscount s' = activeDiscount s \<or> activeDiscount s' = None \<or>
                (\<exists>env code. op = OpGenerateDiscount env \<and> activeDiscount s' = Some code \<and>
                   \<not> IsRedeemed code \<and> Code code = generateDiscountCode (randDraws env) \<and>
                   orders s' = orders s \<and>
                   sint (nextEligibleOrder s) \<le> int (length (orders s)))"
    using step_discount_state [OF st] by simp_all
  have mono: "length (orders s) \<le> length (orders s')"
    using step_discount_state [OF st] by simp
  show ?thesis
    using inv thr nxt act mono by (auto simp: eligibilityInv_def)
qed

lemma eligibilityInv_run:
  "length ops < 2 ^ 62 \<Longrightarrow> eligibilityInv (run (NewMemoryStore n) ops)"
proof (induction ops rule: rev_induct)
  case Nil
  then show ?case by (simp add: eligibilityInv_New)
next
  case (snoc op ops)
  then have inv: "eligibilityInv (run (NewMemoryStore n) ops)" by simp
  have "length (orders (run (NewMemoryStore n) ops)) \<le> length ops"
    using length_orders_run [of "NewMemoryStore n" ops] by (simp add: NewMemoryStore_def Let_def)
  then have len: "length (orders (run (NewMemoryStore n) ops)) < 2 ^ 62"
    using snoc.prems by simp
  obtain s' r where st: "step (run (NewMemoryStore n) ops) op = (s', r)"
    by (cases "step (run (NewMemoryStore n) ops) op")
  then show ?case
    using eligibilityInv_step [OF inv len st] by (simp add: run_snoc)
qed

text \<open>C9: in every store reached from a new store by fewer than \<open>2^62\<close> operations (a slice
  of that many orders does not fit in memory), every operation leaves \<open>nextEligibleOrder\<close> at
  least as large as it was and leaves the threshold, which is the configured one, as it was.
  A checkout that redeems a code adds exactly the threshold to \<open>nextEligibleOrder\<close>, without
  overflow; every other operation, and every failing checkout, leaves it unchanged.\<close>

theorem nextEligibleOrder_monotone:
  assumes bound: "length ops < 2 ^ 62"
    and reach: "s = run (NewMemoryStore n) ops"
    and st: "step s op = (s', r)"
  shows "sint (nextEligibleOrder s) \<le> sint (nextEligibleOrder s') \<and>
         nthOrderThreshold s' = nthOrderThreshold s \<and>
         nthOrderThreshold s = (if sint n \<le> 0 then 5 else n) \<and>
         (if redeems op r
          then sint (nextEligibleOrder s') =
                 sint (nextEligibleOrder s) + sint (nthOrderThreshold s) \<and>
               nextEligibleOrder s' = nextEligibleOrder s + nthOrderThreshold s
          else nextEligibleOrder s' = nextEligibleOrder s)"
proof -
  have inv: "eligibilityInv s"
    using eligibilityInv_run [OF bound] reach by simp
  have "length (orders s) \<le> length ops"
    using length_orders_run [of "NewMemoryStore n" ops] reach
    by (simp add: NewMemoryStore_def Let_def)
  then have len: "length (orders s) < 2 ^ 62"
    using bound by simp
  have thr0: "nthOrderThreshold s = (if sint n \<le> 0 then 5 else n)"
    using threshold_run [of "NewMemoryStore n" ops] reach
    by (simp add: NewMemoryStore_def Let_def)
  note ds = step_discount_state [OF st]
  show ?thesis
  proof (cases "redeems op r")
    case True
    then have act: "activeDiscount s \<noteq> None"
      and nxt: "nextEligibleOrder s' = nextEligibleOrder s + nthOrderThreshold s"
      and thr: "nthOrderThreshold s' = nthOrderThreshold s"
      using ds by simp_all
    have le: "sint (nextEligibleOrder s) \<le> int (length (orders s))"
      using inv act by (simp add: eligibilityInv_def)
    have sum: "sint (nextEligibleOrder s + nthOrderThreshold s) =
            sint (nextEligibleOrder s) + sint (nthOrderThreshold s)"
      using inv le len by (intro sint_add_no_overflow) (simp_all add: eligibilityInv_def)
    have "0 < sint (nthOrderThreshold s)"
      using inv by (simp add: eligibilityInv_def)
    then show ?thesis
      using True nxt thr sum thr0 by simp
  next
    case False
    then show ?thesis
      using ds thr0 by simp
  qed
qed

theorem nextEligibleOrder_monotone_witness:
  "length discountOps < 2 ^ 62 \<and>
   redeems (OpCheckout ''user-2'' ''DISC-AAAAAA'' checkoutEnv1)
     (snd (step discountStore (OpCheckout ''user-2'' ''DISC-AAAAAA'' checkoutEnv1))) \<and>
   sint (nextEligibleOrder discountStore) = 1 \<and>
   sint (nthOrderThreshold discountStore) = 1 \<and>
   sint (nextEligibleOrder
           (fst (step discountStore (OpCheckout ''user-2'' ''DISC-AAAAAA'' checkoutEnv1)))) = 2"
proof -
  let ?op = "OpCheckout ''user-2'' ''DISC-AAAAAA'' checkoutEnv1"
  have len: "length discountOps < 2 ^ 62"
    by (simp add: discountOps_def)
  have st: "step discountStore ?op = (fst (step discountStore ?op), RCheckout (Inr discountedOrder))"
    by (simp add: discountStore_checkout)
  have red: "redeems ?op (RCheckout (Inr discountedOrder))"
    by (simp add: redeems_def)
  have before: "sint (nextEligibleOrder discountStore) = 1"
    "sint (nthOrderThreshold discountStore) = 1"
    by (simp_all add: discountStore_eq)
  have "sint (nextEligibleOrder (fst (step discountStore ?op))) =
          sint (nextEligibleOrder discountStore) + sint (nthOrderThreshold discountStore)"
    using nextEligibleOrder_monotone [OF len discountStore_def st] red
    by (auto split: if_splits)
  then show ?thesis
    using before len red st by (metis one_add_one snd_conv)
qed

subsection \<open>Redeeming a code again\<close>







subsection \<open>Items that are not valid\<close>

text \<open>C2 as stated fails: \<open>AddItem\<close> has no error result and stores an item with price 0 and
  quantity -1 like any other.\<close>

theorem addItem_accepts_invalid_item:
  "cartEntry (NewMemoryStore 3) ''user-1'' ''SKU1'' = None \<and>
   sint (Quantity invalidItem) \<le> 0 \<and> Price invalidItem \<le> 0 \<and>
   cartEntry (fst (AddItem (NewMemoryStore 3) ''user-1'' invalidItem)) ''user-1'' ''SKU1'' =
     Some invalidItem \<and>
   snd (AddItem (NewMemoryStore 3) ''user-1'' invalidItem) =
     \<lparr>Cart.Items = [(''SKU1'', invalidItem)]\<rparr>"
  by (simp add: cartEntry_def NewMemoryStore_def AddItem_def getOrCreateCart_def Let_def
      invalidItem_def)

lemma AddItem_returns_stored_cart:
  "carts (fst (AddItem s userID item)) userID = Some (snd (AddItem s userID item))"
  unfolding AddItem_def getOrCreateCart_def
  by (simp add: Let_def split: option.splits)

text \<open>C2, as the code has it: an item with an empty sku, or a quantity or price that is not
  positive, is rejected by the HTTP handler, which answers 400 and leaves the store as it was.
  \<open>AddItem\<close> itself accepts such an item: the cart it returns is the one stored for the user,
  and its entry for the sku is the item merged with the entry that was there.\<close>

theorem invalid_item_rejected_by_handler:
  assumes "SKU item = [] \<or> sint (Quantity item) \<le> 0 \<or> Price item \<le> 0"
  shows "handleAddItem s userID (Some item) =
           (s, 400, ErrorPayload ''sku, price and quantity are required'') \<and>
         carts (fst (AddItem s userID item)) userID = Some (snd (AddItem s userID item)) \<and>
         cartEntry (fst (AddItem s userID item)) userID (SKU item) =
           Some (mergeEntry (cartEntry s userID (SKU item)) item)"
  using assms
  by (simp add: handleAddItem_def AddItem_returns_stored_cart cartEntry_AddItem)

theorem invalid_item_rejected_by_handler_witness:
  "sint (Quantity invalidItem) \<le> 0 \<and>
   handleAddItem (NewMemoryStore 3) ''user-1'' (Some invalidItem) =
     (NewMemoryStore 3, 400, ErrorPayload ''sku, price and quantity are required'') \<and>
   cartEntry (fst (AddItem (NewMemoryStore 3) ''user-1'' invalidItem)) ''user-1'' ''SKU1'' =
     Some invalidItem"
proof -
  have bad: "SKU invalidItem = [] \<or> sint (Quantity invalidItem) \<le> 0 \<or> Price invalidItem \<le> 0"
    by (simp add: invalidItem_def)
  have absent: "cartEntry (NewMemoryStore 3) ''user-1'' (SKU invalidItem) = None"
    by (simp add: cartEntry_def NewMemoryStore_def)
  have sku: "SKU invalidItem = ''SKU1''"
    by (simp add: invalidItem_def)
  have q: "sint (Quantity invalidItem) \<le> 0"
    by (simp add: invalidItem_def)
  show ?thesis
    using invalid_item_rejected_by_handler [OF bad, of "NewMemoryStore 3" "''user-1''"] absent q
    by (simp add: sku)
qed

subsection \<open>Checkouts that fail\<close>

text \<open>A failing checkout changes nothing but the cart entry that \<open>getOrCreateCart\<close> creates
  and \<open>totalItemsSold\<close>: the loop has added the quantities of the cart when the discount code
  is then refused.\<close>

lemma Checkout_error_frame:
  assumes "Checkout s userID discountCode env = (s', Inl err)"
  shows "s' = (fst (getOrCreateCart s userID))\<lparr>totalItemsSold := totalItemsSold s'\<rparr> \<and>
         totalItemsSold s' =
           (if err = ErrCartEmpty then totalItemsSold s
            else totalItemsSold s + sum_list (map Quantity (cartItemsOf s userID)))"
  using assms unfolding Checkout_def getOrCreateCart_def cartItemsOf_def
  by (auto simp: checkoutLoop_eq Let_def sold_rangeOrder
      split: option.splits sum.splits prod.splits if_splits)

text \<open>C1: a checkout of a cart with two widgets that supplies a code while none is active
  returns \<open>ErrDiscountNotActive\<close>, and the store it leaves has \<open>totalItemsSold = 2\<close> where
  it was 0.\<close>

theorem checkout_error_changes_totalItemsSold:
  "Checkout widgetStore ''user-1'' ''DISC-AAAAAA'' checkoutEnv0 =
     (widgetStore\<lparr>totalItemsSold := 2\<rparr>, Inl ErrDiscountNotActive) \<and>
   totalItemsSold widgetStore = 0"
  unfolding widgetStore_eq
  by (simp add: Checkout_def getOrCreateCart_def Let_def checkoutEnv0_def widget_def)

subsection \<open>The aggregates and the ledger\<close>

text \<open>\<open>grossRevenue\<close> and \<open>totalDiscount\<close> are updated only when the order is recorded, and
  equal the sums over the ledger in every store reached from a new one.\<close>

lemma ledgerInv_Checkout:
  assumes "ledgerInv s" and "Checkout s userID discountCode env = (s', r)"
  shows "ledgerInv s'"
  using assms unfolding Checkout_def getOrCreateCart_def ledgerInv_def
  by (auto simp: checkoutLoop_eq Let_def ledgerGross_def ledgerDiscount_def
      split: option.splits sum.splits prod.splits if_splits)

lemma ledgerInv_step:
  assumes inv: "ledgerInv s" and st: "step s op = (s', r)"
  shows "ledgerInv s'"
proof (cases op)
  case (OpAddItem u item)
  then show ?thesis
    using inv st
    by (auto simp: AddItem_def getOrCreateCart_def ledgerInv_def Let_def split: option.splits)
next
  case (OpViewCart u)
  then show ?thesis
    using inv st
    by (auto simp: ViewCart_def getOrCreateCart_def ledgerInv_def split: option.splits)
next
  case (OpCheckout u c env)
  obtain s1 r' where "Checkout s u c env = (s1, r')"
    by (cases "Checkout s u c env")
  then have "Checkout s u c env = (s', r')"
    using st OpCheckout by simp
  then show ?thesis
    using inv by (rule ledgerInv_Checkout [rotated])
next
  case (OpGenerateDiscount env)
  then show ?thesis
    using inv st
    by (auto simp: GenerateDiscount_def ledgerInv_def Let_def split: option.splits if_splits)
next
  case OpStats
  then show ?thesis using inv st by simp
qed

lemma sibling_counters_match_ledger:
  "grossRevenue (run (NewMemoryStore n) ops) = ledgerGross (orders (run (NewMemoryStore n) ops)) \<and>
   totalDiscount (run (NewMemoryStore n) ops) =
     ledgerDiscount (orders (run (NewMemoryStore n) ops))"
proof -
  have "ledgerInv (run (NewMemoryStore n) ops)"
  proof (induction ops rule: rev_induct)
    case Nil
    then show ?case
      by (simp add: ledgerInv_def NewMemoryStore_def Let_def ledgerGross_def ledgerDiscount_def)
  next
    case (snoc op ops)
    obtain s' r where st: "step (run (NewMemoryStore n) ops) op = (s', r)"
      by (cases "step (run (NewMemoryStore n) ops) op")
    then show ?case
      using ledgerInv_step [OF snoc st] by (simp add: run_snoc)
  qed
  then show ?thesis by (simp add: ledgerInv_def)
qed

text \<open>C3: after a checkout refused for its discount code and then a checkout of the same
  cart without a code, the ledger holds one order with two items, and the statistics report 4
  items sold.\<close>

theorem totalItemsSold_differs_from_ledger:
  "orders (run (NewMemoryStore 3) failedThenPaidOps) =
     [\<lparr>ID = ''ord_2001'', UserID = ''user-1'', Items = [widget], TotalAmount = 20,
       DiscountCode = [], DiscountValue = 0, CreatedAt = 2002\<rparr>] \<and>
   ledgerItemsSold (orders (run (NewMemoryStore 3) failedThenPaidOps)) = 2 \<and>
   TotalItemsSold (Stats (run (NewMemoryStore 3) failedThenPaidOps)) = 4"
  by (simp add: failedThenPaidOps_def eval_defs Stats_def ledgerItemsSold_def)

end
